theory Spec2Isabelle
  imports Complex_Main
begin

section \<open>Strings\<close>

text \<open>
  A Python \<open>str\<close> is a sequence of Unicode code points, so a text is a list of code
  points. The Vietnamese keywords of the source are written out as code-point lists;
  ASCII literals go through \<open>cp\<close>. A Python \<open>float\<close> is modelled by the exact
  rational it is meant to be (type \<open>real\<close>).
\<close>

type_synonym ustring = "nat list"

definition cp :: "string \<Rightarrow> ustring" where
  "cp s = map of_char s"

text \<open>\<open>kw in text\<close>: the keyword is a contiguous part of the text.\<close>

fun starts_with :: "ustring \<Rightarrow> ustring \<Rightarrow> bool" where
  "starts_with text [] = True"
| "starts_with [] (k # kw) = False"
| "starts_with (c # text) (k # kw) = (c = k \<and> starts_with text kw)"

fun occurs_in :: "ustring \<Rightarrow> ustring \<Rightarrow> bool" where
  "occurs_in kw [] = (kw = [])"
| "occurs_in kw (c # text) = (starts_with (c # text) kw \<or> occurs_in kw text)"

text \<open>
  \<open>str.strip()\<close> without argument removes leading and trailing white space, the
  code points for which \<open>str.isspace\<close> holds.
\<close>

definition is_space :: "nat \<Rightarrow> bool" where
  "is_space c =
     ((9 \<le> c \<and> c \<le> 13) \<or> (28 \<le> c \<and> c \<le> 32) \<or> c = 133 \<or> c = 160 \<or> c = 5760 \<or>
      (8192 \<le> c \<and> c \<le> 8202) \<or> c = 8232 \<or> c = 8233 \<or> c = 8239 \<or> c = 8287 \<or>
      c = 12288)"

definition strip :: "ustring \<Rightarrow> ustring" where
  "strip s = rev (dropWhile is_space (rev (dropWhile is_space s)))"

text \<open>
  \<open>str.lower()\<close> follows the Unicode case tables, which are not part of the
  repository: the functions below take it as the parameter \<open>lower\<close>. On ASCII text it is
  \<open>ascii_lower\<close>.
\<close>

definition ascii_lower :: "ustring \<Rightarrow> ustring" where
  "ascii_lower s = map (\<lambda>c. if 65 \<le> c \<and> c \<le> 90 then c + 32 else c) s"

section \<open>Exceptions and dictionaries\<close>

text \<open>
  FastAPI's \<open>HTTPException(status_code, detail)\<close> is a subclass of \<open>Exception\<close>. A
  raised exception is either one of these, caught by \<open>except HTTPException\<close> as well as
  by \<open>except Exception\<close>, or an exception of any other class. In both cases \<open>str_of\<close>
  is what \<open>str(e)\<close> returns; for an \<open>HTTPException\<close> that text is the library's.
\<close>

datatype http_exception = HTTPException (status_code: nat) (detail: ustring)

datatype py_exception =
  PyException (exc_class: string) (str_of: ustring)
| Raised_HTTPException (http: http_exception) (str_of: ustring)

text \<open>
  \<open>d[k]\<close> raises KeyError on a missing key; \<open>d.get(k, default)\<close> does not. The text
  of a KeyError is the \<open>repr\<close> of the key: the key between single quotes (code point
  39), for the keys looked up here, which hold no quote and no escaped character.
\<close>

definition key_error :: "ustring \<Rightarrow> py_exception" where
  "key_error k = PyException ''KeyError'' ([39] @ k @ [39])"

definition dict_index :: "(ustring \<times> 'v) list \<Rightarrow> ustring \<Rightarrow> py_exception + 'v" where
  "dict_index d k = (case map_of d k of None \<Rightarrow> Inl (key_error k) | Some v \<Rightarrow> Inr v)"

definition dict_get :: "(ustring \<times> 'v) list \<Rightarrow> ustring \<Rightarrow> 'v \<Rightarrow> 'v" where
  "dict_get d k dflt = (case map_of d k of None \<Rightarrow> dflt | Some v \<Rightarrow> v)"

section \<open>The rule-based classifier (Email-System-Server, main.py)\<close>

text \<open>The dictionaries of \<open>RuleBasedClassifier\<close>, in declaration order.\<close>

definition SPAM_KEYWORDS :: "(ustring \<times> ustring list) list" where
  "SPAM_KEYWORDS =
    [(cp ''vi'',
      [[116, 114, 250, 110, 103, 32, 116, 104, 432, 7903, 110, 103],
       [103, 105, 7843, 109, 32, 99, 226, 110],
       [107, 105, 7871, 109, 32, 116, 105, 7873, 110],
       [109, 105, 7877, 110, 32, 112, 104, 237],
       [107, 104, 117, 121, 7871, 110, 32, 109, 227, 105, 32, 273, 7863, 99, 32, 98, 105,
        7879, 116],
       cp ''click ngay'',
       [110, 104, 7845, 110, 32, 118, 224, 111, 32, 273, 226, 121],
       [432, 117, 32, 273, 227, 105, 32, 115, 7889, 99],
       [103, 105, 7899, 105, 32, 104, 7841, 110],
       [99, 104, 7881, 32, 104, 244, 109, 32, 110, 97, 121]]),
     (cp ''en'',
      [cp ''winner'', cp ''lottery'', cp ''free money'', cp ''click here'',
       cp ''limited time'', cp ''act now'', cp ''congratulations'', cp ''selected'',
       cp ''prize'', cp ''urgent''])]"

definition NEGATIVE_KEYWORDS :: "(ustring \<times> ustring list) list" where
  "NEGATIVE_KEYWORDS =
    [(cp ''vi'',
      [[116, 104, 7845, 116, 32, 118, 7885, 110, 103],
       [116, 7879],
       [107, 233, 109],
       [116, 7891, 105],
       [112, 104, 224, 110, 32, 110, 224, 110],
       [107, 104, 105, 7871, 117, 32, 110, 7841, 105],
       [104, 7911, 121],
       [116, 7915, 32, 99, 104, 7889, 105]]),
     (cp ''en'',
      [cp ''disappointed'', cp ''terrible'', cp ''worst'', cp ''complaint'', cp ''cancel'',
       cp ''refuse'', cp ''angry'', cp ''frustrated''])]"

definition POSITIVE_KEYWORDS :: "(ustring \<times> ustring list) list" where
  "POSITIVE_KEYWORDS =
    [(cp ''vi'',
      [[99, 7843, 109, 32, 417, 110],
       [116, 117, 121, 7879, 116, 32, 118, 7901, 105],
       [120, 117, 7845, 116, 32, 115, 7855, 99],
       [104, 224, 105, 32, 108, 242, 110, 103],
       [116, 7889, 116],
       [121, 234, 117, 32, 116, 104, 237, 99, 104]]),
     (cp ''en'',
      [cp ''thank'', cp ''excellent'', cp ''great'', cp ''wonderful'', cp ''appreciate'',
       cp ''love'', cp ''amazing''])]"

definition CATEGORY_PATTERNS :: "(string \<times> ustring list) list" where
  "CATEGORY_PATTERNS =
    [(''important'',
      [cp ''urgent'', cp ''important'', cp ''action required'',
       [107, 104, 7849, 110, 32, 99, 7845, 112],
       [113, 117, 97, 110, 32, 116, 114, 7885, 110, 103],
       [99, 7847, 110, 32, 120, 7917, 32, 108, 253]]),
     (''social'',
      [cp ''friend'', cp ''follow'', cp ''like'', cp ''comment'',
       [98, 7841, 110, 32, 98, 232],
       [116, 104, 101, 111, 32, 100, 245, 105],
       [98, 236, 110, 104, 32, 108, 117, 7853, 110]]),
     (''promotions'',
      [cp ''sale'', cp ''discount'', cp ''offer'', cp ''deal'',
       [103, 105, 7843, 109, 32, 103, 105, 225],
       [107, 104, 117, 121, 7871, 110, 32, 109, 227, 105],
       [432, 117, 32, 273, 227, 105]]),
     (''updates'',
      [cp ''shipped'', cp ''delivered'', cp ''update'', cp ''notification'',
       [103, 105, 97, 111, 32, 104, 224, 110, 103],
       [99, 7853, 112, 32, 110, 104, 7853, 116],
       [116, 104, 244, 110, 103, 32, 98, 225, 111]])]"

text \<open>\<open>sum(1 for kw in keywords if kw in text_lower)\<close>\<close>

definition keyword_hits :: "ustring list \<Rightarrow> ustring \<Rightarrow> nat" where
  "keyword_hits keywords text_lower = length (filter (\<lambda>kw. occurs_in kw text_lower) keywords)"

text \<open>\<open>D.get(language, []) + D["en"]\<close>, the list every language-dependent axis scans.\<close>

definition language_keywords ::
  "(ustring \<times> ustring list) list \<Rightarrow> ustring \<Rightarrow> py_exception + ustring list" where
  "language_keywords d language =
     (case dict_index d (cp ''en'') of
        Inl e \<Rightarrow> Inl e
      | Inr en \<Rightarrow> Inr (dict_get d language [] @ en))"

definition keyword_score ::
  "(ustring \<times> ustring list) list \<Rightarrow> ustring \<Rightarrow> ustring \<Rightarrow> py_exception + nat" where
  "keyword_score d text_lower language =
     (case language_keywords d language of
        Inl e \<Rightarrow> Inl e
      | Inr keywords \<Rightarrow> Inr (keyword_hits keywords text_lower))"

definition spam_score :: "(ustring \<Rightarrow> ustring) \<Rightarrow> ustring \<Rightarrow> ustring \<Rightarrow> py_exception + nat" where
  "spam_score lower text language = keyword_score SPAM_KEYWORDS (lower text) language"

definition pos_score :: "(ustring \<Rightarrow> ustring) \<Rightarrow> ustring \<Rightarrow> ustring \<Rightarrow> py_exception + nat" where
  "pos_score lower text language = keyword_score POSITIVE_KEYWORDS (lower text) language"

definition neg_score :: "(ustring \<Rightarrow> ustring) \<Rightarrow> ustring \<Rightarrow> ustring \<Rightarrow> py_exception + nat" where
  "neg_score lower text language = keyword_score NEGATIVE_KEYWORDS (lower text) language"

text \<open>
  The loop that fills \<open>category_scores\<close>: one entry per pattern, in the order of
  \<open>CATEGORY_PATTERNS\<close> (a dict keeps insertion order, and the keys are distinct).
\<close>

definition category_scores :: "ustring \<Rightarrow> (string \<times> nat) list" where
  "category_scores text_lower =
     map (\<lambda>(cat, keywords). (cat, keyword_hits keywords text_lower)) CATEGORY_PATTERNS"

text \<open>
  \<open>max(values)\<close> and \<open>max(d, key=d.get)\<close>: both raise ValueError on an empty
  argument, and both keep the first of several largest items (a later item replaces the
  best one only when it is strictly larger).
\<close>

fun max_from :: "nat \<Rightarrow> nat list \<Rightarrow> nat" where
  "max_from best [] = best"
| "max_from best (v # vs) = max_from (if best < v then v else best) vs"

definition py_max :: "nat list \<Rightarrow> py_exception + nat" where
  "py_max vs =
     (case vs of
        [] \<Rightarrow> Inl (PyException ''ValueError'' (cp ''max() arg is an empty sequence''))
      | v # rest \<Rightarrow> Inr (max_from v rest))"

fun max_key_from :: "'k \<times> nat \<Rightarrow> ('k \<times> nat) list \<Rightarrow> 'k \<times> nat" where
  "max_key_from best [] = best"
| "max_key_from best (kv # rest) = max_key_from (if snd best < snd kv then kv else best) rest"

definition py_max_key :: "('k \<times> nat) list \<Rightarrow> py_exception + 'k" where
  "py_max_key d =
     (case d of
        [] \<Rightarrow> Inl (PyException ''ValueError'' (cp ''max() arg is an empty sequence''))
      | kv # rest \<Rightarrow> Inr (fst (max_key_from kv rest)))"

record classification =
  is_spam :: bool
  spam_confidence :: real
  category :: string
  category_confidence :: real
  sentiment :: string
  sentiment_confidence :: real
  processing_time_ms :: real

text \<open>The three parts of \<open>RuleBasedClassifier.classify\<close>, then the method itself.\<close>

definition spam_part :: "nat \<Rightarrow> bool \<times> real" where
  "spam_part score =
     (let spam = (2 \<le> score) in
      (spam,
       if spam then min (0.5 + real score * 0.1) 0.95
       else max (0.5 - real score * 0.1) 0.1))"

definition sentiment_part :: "nat \<Rightarrow> nat \<Rightarrow> string \<times> real" where
  "sentiment_part pos neg =
     (if neg < pos then (''positive'', min (0.5 + real pos * 0.1) 0.9)
      else if pos < neg then (''negative'', min (0.5 + real neg * 0.1) 0.9)
      else (''neutral'', 0.6))"

definition category_part :: "(string \<times> nat) list \<Rightarrow> py_exception + string \<times> real" where
  "category_part scores =
     (case py_max (map snd scores) of
        Inl e \<Rightarrow> Inl e
      | Inr m \<Rightarrow>
          if 0 < m then
            (case py_max_key scores of
               Inl e \<Rightarrow> Inl e
             | Inr cat \<Rightarrow>
                 (case map_of scores cat of
                    None \<Rightarrow> Inl (key_error (cp cat))
                  | Some n \<Rightarrow> Inr (cat, min (0.5 + real n * 0.15) 0.85)))
          else Inr (''primary'', 0.6))"

definition classify ::
  "(ustring \<Rightarrow> ustring) \<Rightarrow> ustring \<Rightarrow> ustring \<Rightarrow> py_exception + classification" where
  "classify lower text language =
     (case spam_score lower text language of
        Inl e \<Rightarrow> Inl e
      | Inr spam \<Rightarrow>
     (case pos_score lower text language of
        Inl e \<Rightarrow> Inl e
      | Inr pos \<Rightarrow>
     (case neg_score lower text language of
        Inl e \<Rightarrow> Inl e
      | Inr neg \<Rightarrow>
     (case category_part (category_scores (lower text)) of
        Inl e \<Rightarrow> Inl e
      | Inr (cat, cat_conf) \<Rightarrow>
          Inr \<lparr>is_spam = fst (spam_part spam),
               spam_confidence = snd (spam_part spam),
               category = cat,
               category_confidence = cat_conf,
               sentiment = fst (sentiment_part pos neg),
               sentiment_confidence = snd (sentiment_part pos neg),
               processing_time_ms = 1\<rparr>))))"

text \<open>
  The keywords of all axes and languages, and the result for a text that holds none of
  them.
\<close>

definition axis_keywords :: "ustring list" where
  "axis_keywords =
     concat (map snd SPAM_KEYWORDS @ map snd POSITIVE_KEYWORDS @ map snd NEGATIVE_KEYWORDS @
             map snd CATEGORY_PATTERNS)"

definition neutral_defaults :: classification where
  "neutral_defaults =
     \<lparr>is_spam = False, spam_confidence = 0.5, category = ''primary'',
      category_confidence = 0.6, sentiment = ''neutral'', sentiment_confidence = 0.6,
      processing_time_ms = 1\<rparr>"

text \<open>
  The score as the specification words it, for comparison with \<open>keyword_score\<close>: the
  total number of occurrences in the text of the keywords in the union of the language's
  set and the English set.
\<close>

fun count_occurrences :: "ustring \<Rightarrow> ustring \<Rightarrow> nat" where
  "count_occurrences kw [] = (if kw = [] then 1 else 0)"
| "count_occurrences kw (c # text) =
     (if starts_with (c # text) kw then 1 else 0) + count_occurrences kw text"

definition spec_occurrence_score ::
  "(ustring \<times> ustring list) list \<Rightarrow> ustring \<Rightarrow> ustring \<Rightarrow> nat" where
  "spec_occurrence_score d text_lower lang =
     sum_list (map (\<lambda>kw. count_occurrences kw text_lower)
       (remdups (dict_get d lang [] @ dict_get d (cp ''en'') [])))"

section \<open>The endpoints (Email-System-Server, main.py)\<close>

record classify_request =
  subject :: ustring
  body :: ustring
  language :: ustring

text \<open>
  The global \<open>classifier\<close> is \<open>None\<close> or a \<open>PhoBERTClassifier\<close>. Its models are
  outside the repository, so its method \<open>classify_email(subject, body)\<close> is a field of
  the record: it returns a result dict or raises.
\<close>

record phobert =
  models_loaded :: bool
  model_classify_email :: "ustring \<Rightarrow> ustring \<Rightarrow> py_exception + classification"

text \<open>\<open>classifier and classifier.models_loaded\<close>\<close>

definition use_phobert :: "phobert option \<Rightarrow> bool" where
  "use_phobert classifier = (case classifier of None \<Rightarrow> False | Some c \<Rightarrow> models_loaded c)"

text \<open>
  Each endpoint returns its outcome together with the calls it made to a classifier, in
  order: the work it did.
\<close>

datatype backend_call =
  PhoBERT_call ustring ustring
| Fallback_call ustring ustring

text \<open>The branch \<open>if classifier and classifier.models_loaded: ... else: ...\<close> of both endpoints.\<close>

definition run_classifier ::
  "phobert option \<Rightarrow> (ustring \<Rightarrow> ustring) \<Rightarrow> classify_request \<Rightarrow> ustring \<Rightarrow>
   (py_exception + classification) \<times> backend_call" where
  "run_classifier classifier lower request full_text =
     (case classifier of
        None \<Rightarrow>
          (classify lower full_text (language request),
           Fallback_call full_text (language request))
      | Some c \<Rightarrow>
          if models_loaded c then
            (model_classify_email c (subject request) (body request),
             PhoBERT_call (subject request) (body request))
          else
            (classify lower full_text (language request),
             Fallback_call full_text (language request)))"

definition full_text_of :: "classify_request \<Rightarrow> ustring" where
  "full_text_of request = strip (subject request @ cp '' '' @ body request)"

definition classify_email ::
  "phobert option \<Rightarrow> (ustring \<Rightarrow> ustring) \<Rightarrow> classify_request \<Rightarrow>
   (http_exception + classification) \<times> backend_call list" where
  "classify_email classifier lower request =
     (let full_text = full_text_of request in
      if full_text = [] then
        (Inl (HTTPException 400 (cp ''Email content cannot be empty'')), [])
      else
        (case run_classifier classifier lower request full_text of
           (Inl (Raised_HTTPException h msg), call) \<Rightarrow> (Inl h, [call])
         | (Inl (PyException cls msg), call) \<Rightarrow>
             (Inl (HTTPException 500 (cp ''Classification failed: '' @ msg)), [call])
         | (Inr result, call) \<Rightarrow> (Inr result, [call])))"

text \<open>
  Whether the call of the loaded classifier for a request raises an \<open>HTTPException\<close>,
  which the handler \<open>except HTTPException: raise\<close> of \<open>classify_email\<close> passes on
  unchanged. The \<open>PhoBERTClassifier\<close> of the source raises none: it calls the tokenizer,
  the models and numpy only.
\<close>

definition raises_http :: "py_exception + classification \<Rightarrow> bool" where
  "raises_http outcome =
     (case outcome of
        Inl (Raised_HTTPException h msg) \<Rightarrow> True
      | Inl (PyException cls msg) \<Rightarrow> False
      | Inr result \<Rightarrow> False)"

definition backend_raises_http :: "phobert option \<Rightarrow> classify_request \<Rightarrow> bool" where
  "backend_raises_http classifier request =
     (case classifier of
        None \<Rightarrow> False
      | Some c \<Rightarrow>
          models_loaded c \<and>
          raises_http (model_classify_email c (subject request) (body request)))"

text \<open>
  An entry of the batch's \<open>results\<close>: \<open>{"success": True, **result}\<close> or
  \<open>{"success": False, "error": str(e)}\<close>.
\<close>

datatype batch_item =
  Item_result classification
| Item_error ustring

fun success :: "batch_item \<Rightarrow> bool" where
  "success (Item_result result) = True"
| "success (Item_error msg) = False"

record batch_response =
  results :: "batch_item list"
  total :: nat

text \<open>The body of the \<open>for\<close> loop of \<open>batch_classify\<close>, for one email.\<close>

definition batch_step ::
  "phobert option \<Rightarrow> (ustring \<Rightarrow> ustring) \<Rightarrow> classify_request \<Rightarrow> batch_item \<times> backend_call" where
  "batch_step classifier lower email =
     (let full_text = full_text_of email in
      case run_classifier classifier lower email full_text of
        (Inl e, call) \<Rightarrow> (Item_error (str_of e), call)
      | (Inr result, call) \<Rightarrow> (Item_result result, call))"

text \<open>
  The loop: the list \<open>results\<close> (here \<open>items\<close>) grows by one entry per email, in the
  order of the input.
\<close>

fun batch_loop ::
  "phobert option \<Rightarrow> (ustring \<Rightarrow> ustring) \<Rightarrow> classify_request list \<Rightarrow>
   batch_item list \<times> backend_call list \<Rightarrow> batch_item list \<times> backend_call list" where
  "batch_loop classifier lower [] acc = acc"
| "batch_loop classifier lower (email # emails) (items, calls) =
     (case batch_step classifier lower email of
        (item, call) \<Rightarrow> batch_loop classifier lower emails (items @ [item], calls @ [call]))"

definition batch_classify ::
  "phobert option \<Rightarrow> (ustring \<Rightarrow> ustring) \<Rightarrow> classify_request list \<Rightarrow>
   (http_exception + batch_response) \<times> backend_call list" where
  "batch_classify classifier lower emails =
     (if 100 < length emails then
        (Inl (HTTPException 400 (cp ''Maximum 100 emails per batch'')), [])
      else
        (case batch_loop classifier lower emails ([], []) of
           (items, calls) \<Rightarrow> (Inr \<lparr>results = items, total = length items\<rparr>, calls)))"

text \<open>
  Test data: a loaded classifier whose \<open>classify_email\<close> raises for the subject "bad",
  and a batch of three emails, the second with that subject.
\<close>

definition failing_phobert :: phobert where
  "failing_phobert =
     \<lparr>models_loaded = True,
      model_classify_email = (\<lambda>subject body.
         if subject = cp ''bad'' then Inl (PyException ''RuntimeError'' (cp ''boom''))
         else Inr neutral_defaults)\<rparr>"

text \<open>
  Test data: a loaded classifier whose \<open>classify_email\<close> raises the \<open>HTTPException\<close> of
  the empty-input check itself.
\<close>

definition rejecting_phobert :: phobert where
  "rejecting_phobert =
     \<lparr>models_loaded = True,
      model_classify_email = (\<lambda>subject body.
         Inl (Raised_HTTPException
                (HTTPException 400 (cp ''Email content cannot be empty''))
                (cp ''400: Email content cannot be empty'')))\<rparr>"

definition sample_batch :: "classify_request list" where
  "sample_batch =
     [\<lparr>subject = cp ''first'', body = cp ''mail'', language = cp ''vi''\<rparr>,
      \<lparr>subject = cp ''bad'', body = cp ''mail'', language = cp ''vi''\<rparr>,
      \<lparr>subject = cp ''third'', body = cp ''mail'', language = cp ''en''\<rparr>]"

section \<open>The model-backed classifier (PhoBERT-Service, classifier.py)\<close>

text \<open>The class tables \<open>CATEGORIES\<close> and \<open>SENTIMENTS\<close>, keyed by class index.\<close>

definition CATEGORIES :: "(int \<times> string) list" where
  "CATEGORIES =
     [(0, ''primary''), (1, ''important''), (2, ''social''), (3, ''promotions''),
      (4, ''updates''), (5, ''spam'')]"

definition SENTIMENTS :: "(int \<times> string) list" where
  "SENTIMENTS = [(0, ''negative''), (1, ''neutral''), (2, ''positive'')]"

definition table_get :: "(int \<times> string) list \<Rightarrow> int \<Rightarrow> string \<Rightarrow> string" where
  "table_get d k dflt = (case map_of d k of None \<Rightarrow> dflt | Some v \<Rightarrow> v)"

text \<open>
  The tokenizer and the three models are loaded from files outside the repository. A
  loaded tokenizer maps a text to model inputs or raises; a loaded model maps inputs to
  the pair \<open>(pred_class, confidence)\<close> of \<open>_predict\<close> or raises.
\<close>

record 'i phobert_classifier =
  is_loaded :: bool
  tokenizer :: "(ustring \<Rightarrow> py_exception + 'i) option"
  spam_model :: "('i \<Rightarrow> py_exception + int \<times> real) option"
  sentiment_model :: "('i \<Rightarrow> py_exception + int \<times> real) option"
  category_model :: "('i \<Rightarrow> py_exception + int \<times> real) option"

definition preprocess :: "'i phobert_classifier \<Rightarrow> ustring \<Rightarrow> py_exception + 'i" where
  "preprocess self text =
     (case tokenizer self of
        None \<Rightarrow> Inl (PyException ''ValueError'' (cp ''Tokenizer not loaded''))
      | Some tok \<Rightarrow> tok text)"

record spam_result =
  sr_is_spam :: bool
  sr_spam_score :: real
  sr_confidence :: real

definition detect_spam :: "'i phobert_classifier \<Rightarrow> ustring \<Rightarrow> spam_result" where
  "detect_spam self text =
     (let result = \<lparr>sr_is_spam = False, sr_spam_score = 0, sr_confidence = 0\<rparr> in
      case spam_model self of
        None \<Rightarrow> result
      | Some model \<Rightarrow>
          (case preprocess self text of
             Inl e \<Rightarrow> result
           | Inr inputs \<Rightarrow>
               (case model inputs of
                  Inl e \<Rightarrow> result
                | Inr (pred_class, confidence) \<Rightarrow>
                    \<lparr>sr_is_spam = (pred_class = 1),
                     sr_spam_score = (if pred_class = 1 then confidence else 1 - confidence),
                     sr_confidence = confidence\<rparr>)))"

record sentiment_result =
  st_sentiment :: string
  st_score :: real
  st_confidence :: real

definition analyze_sentiment :: "'i phobert_classifier \<Rightarrow> ustring \<Rightarrow> sentiment_result" where
  "analyze_sentiment self text =
     (let result = \<lparr>st_sentiment = ''neutral'', st_score = 0, st_confidence = 0\<rparr> in
      case sentiment_model self of
        None \<Rightarrow> result
      | Some model \<Rightarrow>
          (case preprocess self text of
             Inl e \<Rightarrow> result
           | Inr inputs \<Rightarrow>
               (case model inputs of
                  Inl e \<Rightarrow> result
                | Inr (pred_class, confidence) \<Rightarrow>
                    \<lparr>st_sentiment = table_get SENTIMENTS pred_class ''neutral'',
                     st_score = confidence,
                     st_confidence = confidence\<rparr>)))"

text \<open>The result dict of \<open>PhoBERTClassifier.classify\<close>.\<close>

record model_result =
  res_category :: string
  res_is_spam :: bool
  res_spam_score :: real
  res_sentiment :: string
  res_sentiment_score :: real
  res_confidence :: real

text \<open>
  \<open>PhoBERTClassifier.classify\<close> updates \<open>result\<close> in place inside one \<open>try\<close>; an
  exception ends the block and the dict is returned as it stands. The steps below are
  the statements of the block in order, on the pair \<open>(result, confidences)\<close>.
\<close>

definition spam_step ::
  "'i phobert_classifier \<Rightarrow> ustring \<Rightarrow> model_result \<times> real list \<Rightarrow> model_result \<times> real list" where
  "spam_step self text st =
     (case st of (result, confidences) \<Rightarrow>
        (case spam_model self of
           None \<Rightarrow> (result, confidences)
         | Some m \<Rightarrow>
             (let spam_result = detect_spam self text in
              (result\<lparr>res_is_spam := sr_is_spam spam_result,
                      res_spam_score := sr_spam_score spam_result\<rparr>,
               confidences @ [sr_confidence spam_result]))))"

definition sentiment_step ::
  "'i phobert_classifier \<Rightarrow> ustring \<Rightarrow> model_result \<times> real list \<Rightarrow> model_result \<times> real list" where
  "sentiment_step self text st =
     (case st of (result, confidences) \<Rightarrow>
        (case sentiment_model self of
           None \<Rightarrow> (result, confidences)
         | Some m \<Rightarrow>
             (let sentiment_result = analyze_sentiment self text in
              (result\<lparr>res_sentiment := st_sentiment sentiment_result,
                      res_sentiment_score := st_score sentiment_result\<rparr>,
               confidences @ [st_confidence sentiment_result]))))"

text \<open>The category step may raise: \<open>_predict\<close> runs inside the block of \<open>classify\<close> itself.\<close>

definition category_step ::
  "'i phobert_classifier \<Rightarrow> 'i \<Rightarrow> model_result \<times> real list \<Rightarrow>
   model_result + model_result \<times> real list" where
  "category_step self inputs st =
     (case st of (result, confidences) \<Rightarrow>
        (case category_model self of
           None \<Rightarrow> Inr (result, confidences)
         | Some model \<Rightarrow>
             (case model inputs of
                Inl e \<Rightarrow> Inl result
              | Inr (pred_class, confidence) \<Rightarrow>
                  Inr (result\<lparr>res_category := table_get CATEGORIES pred_class ''primary''\<rparr>,
                       confidences @ [confidence]))))"

definition model_classify :: "'i phobert_classifier \<Rightarrow> ustring \<Rightarrow> model_result" where
  "model_classify self text =
     (let result = \<lparr>res_category = ''primary'', res_is_spam = False, res_spam_score = 0,
                    res_sentiment = ''neutral'', res_sentiment_score = 0,
                    res_confidence = 0\<rparr> in
      if \<not> is_loaded self then result
      else
        (case preprocess self text of
           Inl e \<Rightarrow> result
         | Inr inputs \<Rightarrow>
             (case category_step self inputs
                     (sentiment_step self text (spam_step self text (result, []))) of
                Inl interrupted \<Rightarrow> interrupted
              | Inr (result', confidences) \<Rightarrow>
                  if confidences \<noteq> [] then
                    result'\<lparr>res_confidence := sum_list confidences / real (length confidences)\<rparr>
                  else result')))"

text \<open>
  Test data: a loaded classifier whose category model was trained on the six classes of
  \<open>CATEGORIES\<close> and predicts class 5.
\<close>

definition six_class_classifier :: "ustring phobert_classifier" where
  "six_class_classifier =
     \<lparr>is_loaded = True,
      tokenizer = Some (\<lambda>text. Inr text),
      spam_model = None,
      sentiment_model = None,
      category_model = Some (\<lambda>inputs. Inr (5, 0.9))\<rparr>"

section \<open>Properties of the rule-based classifier\<close>

subsection \<open>The scores are always defined\<close>

lemma en_present:
  "map_of SPAM_KEYWORDS (cp ''en'') = Some (dict_get SPAM_KEYWORDS (cp ''en'') [])"
  "map_of POSITIVE_KEYWORDS (cp ''en'') = Some (dict_get POSITIVE_KEYWORDS (cp ''en'') [])"
  "map_of NEGATIVE_KEYWORDS (cp ''en'') = Some (dict_get NEGATIVE_KEYWORDS (cp ''en'') [])"
  by (simp_all add: dict_get_def SPAM_KEYWORDS_def POSITIVE_KEYWORDS_def
      NEGATIVE_KEYWORDS_def cp_def)

lemma keyword_score_Inr:
  assumes "map_of d (cp ''en'') = Some en"
  shows "keyword_score d text_lower lang = Inr (keyword_hits (dict_get d lang [] @ en) text_lower)"
  using assms by (simp add: keyword_score_def language_keywords_def dict_index_def)

lemma spam_score_eq:
  "spam_score lower text lang =
     Inr (keyword_hits (dict_get SPAM_KEYWORDS lang [] @ dict_get SPAM_KEYWORDS (cp ''en'') [])
            (lower text))"
  unfolding spam_score_def by (rule keyword_score_Inr [OF en_present(1)])

lemma pos_score_eq:
  "pos_score lower text lang =
     Inr (keyword_hits
            (dict_get POSITIVE_KEYWORDS lang [] @ dict_get POSITIVE_KEYWORDS (cp ''en'') [])
            (lower text))"
  unfolding pos_score_def by (rule keyword_score_Inr [OF en_present(2)])

lemma neg_score_eq:
  "neg_score lower text lang =
     Inr (keyword_hits
            (dict_get NEGATIVE_KEYWORDS lang [] @ dict_get NEGATIVE_KEYWORDS (cp ''en'') [])
            (lower text))"
  unfolding neg_score_def by (rule keyword_score_Inr [OF en_present(3)])

lemma max_from_ge: "best \<le> max_from best vs"
proof (induction vs arbitrary: best)
  case Nil
  show ?case by simp
next
  case (Cons v vs)
  have "(if best < v then v else best) \<le> max_from (if best < v then v else best) vs"
    by (rule Cons.IH)
  then show ?case by (simp split: if_splits)
qed

lemma max_from_pos_iff: "0 < max_from best vs \<longleftrightarrow> (\<exists>v \<in> set (best # vs). 0 < v)"
proof (induction vs arbitrary: best)
  case Nil
  show ?case by simp
next
  case (Cons v vs)
  show ?case
    using Cons.IH [of "if best < v then v else best"] by (auto split: if_splits)
qed

lemma max_key_from_split:
  "\<exists>pre post. best # rest = pre @ [max_key_from best rest] @ post \<and>
     (\<forall>kv \<in> set pre. snd kv < snd (max_key_from best rest)) \<and>
     (\<forall>kv \<in> set post. snd kv \<le> snd (max_key_from best rest))"
proof (induction rest arbitrary: best)
  case Nil
  have "[best] = [] @ [max_key_from best []] @ []" by simp
  then show ?case by fastforce
next
  case (Cons kv rest)
  define b where "b = (if snd best < snd kv then kv else best)"
  define m where "m = max_key_from b rest"
  have m_eq: "max_key_from best (kv # rest) = m"
    by (simp add: m_def b_def)
  from Cons.IH [of b] obtain pre post where
    split: "b # rest = pre @ [m] @ post" and
    before: "\<forall>x \<in> set pre. snd x < snd m" and
    after: "\<forall>x \<in> set post. snd x \<le> snd m"
    unfolding m_def by blast
  show ?case
  proof (cases pre)
    case Nil
    then have mb: "m = b" and post: "post = rest" using split by simp_all
    show ?thesis
    proof (cases "snd best < snd kv")
      case True
      then have "m = kv" using mb by (simp add: b_def)
      then have "best # kv # rest = [best] @ [m] @ rest" by simp
      moreover have "\<forall>x \<in> set [best]. snd x < snd m" using True \<open>m = kv\<close> by simp
      moreover have "\<forall>x \<in> set rest. snd x \<le> snd m" using after post by simp
      ultimately show ?thesis unfolding m_eq by blast
    next
      case False
      then have "m = best" using mb by (simp add: b_def)
      then have "best # kv # rest = [] @ [m] @ (kv # rest)" by simp
      moreover have "\<forall>x \<in> set (kv # rest). snd x \<le> snd m"
        using False \<open>m = best\<close> after post by auto
      ultimately show ?thesis unfolding m_eq by (metis empty_iff list.set(1))
    qed
  next
    case (Cons p pre')
    then have pb: "p = b" and rest: "rest = pre' @ [m] @ post" using split by simp_all
    have "snd b < snd m" using before Cons pb by simp
    then have "snd best < snd m" "snd kv < snd m"
      by (auto simp: b_def split: if_splits)
    moreover have "\<forall>x \<in> set pre'. snd x < snd m" using before Cons by simp
    ultimately have "\<forall>x \<in> set (best # kv # pre'). snd x < snd m" by simp
    moreover have "best # kv # rest = (best # kv # pre') @ [m] @ post" using rest by simp
    ultimately show ?thesis unfolding m_eq using after by blast
  qed
qed

lemma max_key_from_snd: "snd (max_key_from best rest) = max_from (snd best) (map snd rest)"
  by (induction rest arbitrary: best) (simp_all add: if_distrib [of snd])

lemma category_part_eq:
  assumes ne: "scores \<noteq> []" and dist: "distinct (map fst scores)"
  shows "category_part scores =
     (if \<exists>kv \<in> set scores. 0 < snd kv
      then Inr (fst (max_key_from (hd scores) (tl scores)),
                min (0.5 + real (snd (max_key_from (hd scores) (tl scores))) * 0.15) 0.85)
      else Inr (''primary'', 0.6))"
proof -
  obtain kv rest where scores: "scores = kv # rest" using ne by (cases scores) auto
  define m where "m = max_key_from kv rest"
  have "m \<in> set scores"
    using max_key_from_split [of kv rest] unfolding m_def scores
    by (metis in_set_conv_decomp append_Cons append_Nil)
  then have look: "map_of scores (fst m) = Some (snd m)"
    using dist by (metis map_of_is_SomeI prod.collapse)
  have mx: "py_max (map snd scores) = Inr (max_from (snd kv) (map snd rest))"
    by (simp add: py_max_def scores)
  have pos: "0 < max_from (snd kv) (map snd rest) \<longleftrightarrow> (\<exists>x \<in> set scores. 0 < snd x)"
    unfolding max_from_pos_iff scores by auto
  have key: "py_max_key scores = Inr (fst m)"
    by (simp add: py_max_key_def scores m_def)
  show ?thesis
  proof (cases "\<exists>x \<in> set scores. 0 < snd x")
    case True
    then have "category_part scores = Inr (fst m, min (0.5 + real (snd m) * 0.15) 0.85)"
      unfolding category_part_def mx key using pos look by simp
    then show ?thesis using True by (simp add: scores m_def)
  next
    case False
    then have "category_part scores = Inr (''primary'', 0.6)"
      unfolding category_part_def mx using pos by simp
    then show ?thesis using False by simp
  qed
qed

lemma category_scores_eq:
  "category_scores t =
     [(''important'', keyword_hits (snd (CATEGORY_PATTERNS ! 0)) t),
      (''social'', keyword_hits (snd (CATEGORY_PATTERNS ! 1)) t),
      (''promotions'', keyword_hits (snd (CATEGORY_PATTERNS ! 2)) t),
      (''updates'', keyword_hits (snd (CATEGORY_PATTERNS ! 3)) t)]"
  by (simp add: category_scores_def CATEGORY_PATTERNS_def)

lemma category_scores_keys:
  "category_scores t \<noteq> []" "distinct (map fst (category_scores t))"
  by (simp_all add: category_scores_eq)

lemma category_part_total: "\<exists>c. category_part (category_scores t) = Inr c"
  unfolding category_part_eq [OF category_scores_keys]
  by (cases "\<exists>kv \<in> set (category_scores t). 0 < snd kv") (simp_all only: if_True if_False, blast+)

lemma classify_eq:
  assumes "category_part (category_scores (lower text)) = Inr (cat, cat_conf)"
    and "spam_score lower text lang = Inr spam"
    and "pos_score lower text lang = Inr pos"
    and "neg_score lower text lang = Inr neg"
  shows "classify lower text lang =
     Inr \<lparr>is_spam = fst (spam_part spam), spam_confidence = snd (spam_part spam),
          category = cat, category_confidence = cat_conf,
          sentiment = fst (sentiment_part pos neg),
          sentiment_confidence = snd (sentiment_part pos neg),
          processing_time_ms = 1\<rparr>"
  using assms by (simp add: classify_def)

lemma classify_total:
  "\<exists>spam pos neg cat cat_conf.
     spam_score lower text lang = Inr spam \<and> pos_score lower text lang = Inr pos \<and>
     neg_score lower text lang = Inr neg \<and>
     category_part (category_scores (lower text)) = Inr (cat, cat_conf) \<and>
     classify lower text lang =
       Inr \<lparr>is_spam = fst (spam_part spam), spam_confidence = snd (spam_part spam),
            category = cat, category_confidence = cat_conf,
            sentiment = fst (sentiment_part pos neg),
            sentiment_confidence = snd (sentiment_part pos neg),
            processing_time_ms = 1\<rparr>"
proof -
  obtain c where "category_part (category_scores (lower text)) = Inr c"
    using category_part_total by blast
  then have c: "category_part (category_scores (lower text)) = Inr (fst c, snd c)" by simp
  note s = spam_score_eq [of lower "text" lang]
  note p = pos_score_eq [of lower "text" lang]
  note n = neg_score_eq [of lower "text" lang]
  show ?thesis
    using classify_eq [OF c s p n] c s p n by blast
qed

lemmas scorer_defs =
  spam_score_def pos_score_def neg_score_def keyword_score_def language_keywords_def
  dict_index_def dict_get_def SPAM_KEYWORDS_def POSITIVE_KEYWORDS_def NEGATIVE_KEYWORDS_def
  keyword_hits_def ascii_lower_def cp_def

subsection \<open>The spam axis\<close>

text \<open>
  Claim C2. For every text and language the rule-based classifier returns a result;
  \<open>is_spam\<close> holds exactly when the spam keyword score is at least 2, and the spam
  confidence is \<open>min(0.5 + 0.1 * score, 0.95)\<close> when \<open>is_spam\<close> holds and
  \<open>max(0.5 - 0.1 * score, 0.1)\<close> when it does not.
\<close>

theorem classify_spam_axis:
  "\<exists>score r. spam_score lower text lang = Inr score \<and> classify lower text lang = Inr r \<and>
     is_spam r = (2 \<le> score) \<and>
     spam_confidence r =
       (if is_spam r then min (0.5 + 0.1 * real score) 0.95
        else max (0.5 - 0.1 * real score) 0.1)"
proof -
  obtain spam pos neg cat cat_conf where
    s: "spam_score lower text lang = Inr spam" and
    r: "classify lower text lang =
       Inr \<lparr>is_spam = fst (spam_part spam), spam_confidence = snd (spam_part spam),
            category = cat, category_confidence = cat_conf,
            sentiment = fst (sentiment_part pos neg),
            sentiment_confidence = snd (sentiment_part pos neg),
            processing_time_ms = 1\<rparr>"
    using classify_total by blast
  show ?thesis
    unfolding s r by (simp add: spam_part_def Let_def mult.commute)
qed

theorem classify_spam_axis_witness:
  "\<exists>r. classify ascii_lower (cp ''You are a WINNER of the lottery'') (cp ''vi'') = Inr r \<and>
       is_spam r \<and> spam_confidence r = 0.7"
proof -
  have score: "spam_score ascii_lower (cp ''You are a WINNER of the lottery'') (cp ''vi'') = Inr 2"
    by (simp add: scorer_defs)
  from classify_spam_axis [of ascii_lower "cp ''You are a WINNER of the lottery''" "cp ''vi''"]
  obtain r where
    "classify ascii_lower (cp ''You are a WINNER of the lottery'') (cp ''vi'') = Inr r"
    "is_spam r = (2 \<le> (2::nat))"
    "spam_confidence r =
       (if is_spam r then min (0.5 + 0.1 * real (2::nat)) 0.95
        else max (0.5 - 0.1 * real (2::nat)) 0.1)"
    unfolding score by auto
  then show ?thesis by simp
qed

subsection \<open>The sentiment axis\<close>

text \<open>
  Claim C4. With \<open>pos\<close> and \<open>neg\<close> the positive and negative keyword counts: more
  positive than negative keywords give "positive" with confidence
  \<open>min(0.5 + 0.1 * pos, 0.9)\<close>, more negative ones give "negative" with confidence
  \<open>min(0.5 + 0.1 * neg, 0.9)\<close>, and equal counts (both zero included) give "neutral"
  with the fixed confidence 0.6.
\<close>

theorem classify_sentiment_axis:
  "\<exists>pos neg r. pos_score lower text lang = Inr pos \<and> neg_score lower text lang = Inr neg \<and>
     classify lower text lang = Inr r \<and>
     (neg < pos \<longrightarrow>
        sentiment r = ''positive'' \<and> sentiment_confidence r = min (0.5 + 0.1 * real pos) 0.9) \<and>
     (pos < neg \<longrightarrow>
        sentiment r = ''negative'' \<and> sentiment_confidence r = min (0.5 + 0.1 * real neg) 0.9) \<and>
     (pos = neg \<longrightarrow> sentiment r = ''neutral'' \<and> sentiment_confidence r = 0.6)"
proof -
  obtain spam pos neg cat cat_conf where
    p: "pos_score lower text lang = Inr pos" and
    n: "neg_score lower text lang = Inr neg" and
    r: "classify lower text lang =
       Inr \<lparr>is_spam = fst (spam_part spam), spam_confidence = snd (spam_part spam),
            category = cat, category_confidence = cat_conf,
            sentiment = fst (sentiment_part pos neg),
            sentiment_confidence = snd (sentiment_part pos neg),
            processing_time_ms = 1\<rparr>"
    using classify_total by blast
  show ?thesis
    unfolding p n r by (simp add: sentiment_part_def mult.commute)
qed

theorem classify_sentiment_axis_witness:
  "(\<exists>r. classify ascii_lower (cp ''Thank you, great service'') (cp ''vi'') = Inr r \<and>
        sentiment r = ''positive'' \<and> sentiment_confidence r = 0.7) \<and>
   (\<exists>r. classify ascii_lower (cp ''Terrible, I will cancel'') (cp ''vi'') = Inr r \<and>
        sentiment r = ''negative'' \<and> sentiment_confidence r = 0.7) \<and>
   (\<exists>r. classify ascii_lower (cp ''Great but terrible'') (cp ''vi'') = Inr r \<and>
        sentiment r = ''neutral'' \<and> sentiment_confidence r = 0.6)"
proof -
  have p1: "pos_score ascii_lower (cp ''Thank you, great service'') (cp ''vi'') = Inr 2"
    and n1: "neg_score ascii_lower (cp ''Thank you, great service'') (cp ''vi'') = Inr 0"
    and p2: "pos_score ascii_lower (cp ''Terrible, I will cancel'') (cp ''vi'') = Inr 0"
    and n2: "neg_score ascii_lower (cp ''Terrible, I will cancel'') (cp ''vi'') = Inr 2"
    and p3: "pos_score ascii_lower (cp ''Great but terrible'') (cp ''vi'') = Inr 1"
    and n3: "neg_score ascii_lower (cp ''Great but terrible'') (cp ''vi'') = Inr 1"
    by (simp_all add: scorer_defs)
  have a: "\<exists>r. classify ascii_lower (cp ''Thank you, great service'') (cp ''vi'') = Inr r \<and>
        sentiment r = ''positive'' \<and> sentiment_confidence r = 0.7"
    using classify_sentiment_axis [of ascii_lower "cp ''Thank you, great service''" "cp ''vi''"]
    unfolding p1 n1 by auto
  have b: "\<exists>r. classify ascii_lower (cp ''Terrible, I will cancel'') (cp ''vi'') = Inr r \<and>
        sentiment r = ''negative'' \<and> sentiment_confidence r = 0.7"
    using classify_sentiment_axis [of ascii_lower "cp ''Terrible, I will cancel''" "cp ''vi''"]
    unfolding p2 n2 by auto
  have c: "\<exists>r. classify ascii_lower (cp ''Great but terrible'') (cp ''vi'') = Inr r \<and>
        sentiment r = ''neutral'' \<and> sentiment_confidence r = 0.6"
    using classify_sentiment_axis [of ascii_lower "cp ''Great but terrible''" "cp ''vi''"]
    unfolding p3 n3 by auto
  show ?thesis using a b c by blast
qed

subsection \<open>The category axis\<close>

text \<open>
  Claim C3. The four counts stand in \<open>category_scores\<close> in declaration order. When some
  count is positive, the returned category is an entry of largest count, every entry
  before it has a strictly smaller count (so the first of several largest wins), and the
  confidence is \<open>min(0.5 + 0.15 * count, 0.85)\<close>; when all counts are zero the category is
  "primary" with confidence 0.6.
\<close>

theorem classify_category_axis:
  "\<exists>r. classify lower text lang = Inr r \<and>
     map fst (category_scores (lower text)) =
       [''important'', ''social'', ''promotions'', ''updates''] \<and>
     (if \<exists>kv \<in> set (category_scores (lower text)). 0 < snd kv
      then \<exists>pre n post.
             category_scores (lower text) = pre @ [(category r, n)] @ post \<and>
             (\<forall>kv \<in> set pre. snd kv < n) \<and> (\<forall>kv \<in> set post. snd kv \<le> n) \<and>
             category_confidence r = min (0.5 + 0.15 * real n) 0.85
      else category r = ''primary'' \<and> category_confidence r = 0.6)"
proof -
  define scores where "scores = category_scores (lower text)"
  define m where "m = max_key_from (hd scores) (tl scores)"
  have ne: "scores \<noteq> []" and dist: "distinct (map fst scores)"
    unfolding scores_def by (rule category_scores_keys)+
  obtain spam pos neg cat cat_conf where
    c: "category_part scores = Inr (cat, cat_conf)" and
    r: "classify lower text lang =
       Inr \<lparr>is_spam = fst (spam_part spam), spam_confidence = snd (spam_part spam),
            category = cat, category_confidence = cat_conf,
            sentiment = fst (sentiment_part pos neg),
            sentiment_confidence = snd (sentiment_part pos neg),
            processing_time_ms = 1\<rparr>"
    using classify_total [of lower "text" lang] unfolding scores_def by blast
  have keys: "map fst scores = [''important'', ''social'', ''promotions'', ''updates'']"
    unfolding scores_def by (simp add: category_scores_eq)
  have axis: "if \<exists>kv \<in> set scores. 0 < snd kv
      then \<exists>pre n post. scores = pre @ [(cat, n)] @ post \<and>
             (\<forall>kv \<in> set pre. snd kv < n) \<and> (\<forall>kv \<in> set post. snd kv \<le> n) \<and>
             cat_conf = min (0.5 + 0.15 * real n) 0.85
      else cat = ''primary'' \<and> cat_conf = 0.6"
  proof (cases "\<exists>kv \<in> set scores. 0 < snd kv")
    case True
    then have "category_part scores = Inr (fst m, min (0.5 + real (snd m) * 0.15) 0.85)"
      unfolding category_part_eq [OF ne dist] m_def by simp
    then have cat: "cat = fst m" and conf: "cat_conf = min (0.5 + 0.15 * real (snd m)) 0.85"
      using c by (simp_all add: mult.commute)
    have "hd scores # tl scores = scores" using ne by simp
    then obtain pre post where
      "scores = pre @ [m] @ post" "\<forall>kv \<in> set pre. snd kv < snd m"
      "\<forall>kv \<in> set post. snd kv \<le> snd m"
      using max_key_from_split [of "hd scores" "tl scores"] unfolding m_def by metis
    then have "scores = pre @ [(cat, snd m)] @ post \<and>
             (\<forall>kv \<in> set pre. snd kv < snd m) \<and> (\<forall>kv \<in> set post. snd kv \<le> snd m) \<and>
             cat_conf = min (0.5 + 0.15 * real (snd m)) 0.85"
      using cat conf by simp
    then show ?thesis using True by (simp only: if_True) blast
  next
    case False
    then have "category_part scores = Inr (''primary'', 0.6)"
      unfolding category_part_eq [OF ne dist] by simp
    then show ?thesis using c False by simp
  qed
  define R where "R =
       \<lparr>is_spam = fst (spam_part spam), spam_confidence = snd (spam_part spam),
        category = cat, category_confidence = cat_conf,
        sentiment = fst (sentiment_part pos neg),
        sentiment_confidence = snd (sentiment_part pos neg),
        processing_time_ms = 1\<rparr>"
  have sel: "category R = cat" "category_confidence R = cat_conf"
    by (simp_all add: R_def)
  have "classify lower text lang = Inr R" using r by (simp add: R_def)
  moreover note keys
  moreover have "if \<exists>kv \<in> set scores. 0 < snd kv
      then \<exists>pre n post. scores = pre @ [(category R, n)] @ post \<and>
             (\<forall>kv \<in> set pre. snd kv < n) \<and> (\<forall>kv \<in> set post. snd kv \<le> n) \<and>
             category_confidence R = min (0.5 + 0.15 * real n) 0.85
      else category R = ''primary'' \<and> category_confidence R = 0.6"
    unfolding sel by (rule axis)
  ultimately show ?thesis
    unfolding scores_def [symmetric] by (intro exI [of _ R] conjI)
qed

theorem classify_category_axis_witness:
  "(\<exists>kv \<in> set (category_scores (ascii_lower (cp ''Big SALE, tell a friend''))). 0 < snd kv) \<and>
   (\<exists>r. classify ascii_lower (cp ''Big SALE, tell a friend'') (cp ''vi'') = Inr r \<and>
        category r = ''social'' \<and> category_confidence r = 0.65)"
proof -
  have scores: "category_scores (ascii_lower (cp ''Big SALE, tell a friend'')) =
      [(''important'', 0), (''social'', 1), (''promotions'', 1), (''updates'', 0)]"
    by (simp add: category_scores_def CATEGORY_PATTERNS_def scorer_defs)
  from classify_category_axis [of ascii_lower "cp ''Big SALE, tell a friend''" "cp ''vi''"]
  obtain r pre n post where
    r: "classify ascii_lower (cp ''Big SALE, tell a friend'') (cp ''vi'') = Inr r" and
    split: "[(''important'', 0), (''social'', 1), (''promotions'', 1), (''updates'', 0)] =
       pre @ [(category r, n)] @ post" and
    before: "\<forall>kv \<in> set pre. snd kv < n" and after: "\<forall>kv \<in> set post. snd kv \<le> n" and
    conf: "category_confidence r = min (0.5 + 0.15 * real n) 0.85"
    unfolding scores by auto
  from split before after have "category r = ''social'' \<and> n = 1"
    by (auto simp: Cons_eq_append_conv)
  then show ?thesis using r conf scores by simp
qed

subsection \<open>What a score counts\<close>

lemma starts_with_iff: "starts_with t kw \<longleftrightarrow> (\<exists>suf. t = kw @ suf)"
  by (induction t kw rule: starts_with.induct) auto

lemma occurs_in_iff: "occurs_in kw t \<longleftrightarrow> (\<exists>pre suf. t = pre @ kw @ suf)"
proof (induction t)
  case Nil
  show ?case by simp
next
  case (Cons c t)
  have "(\<exists>pre suf. c # t = pre @ kw @ suf) \<longleftrightarrow>
        (\<exists>suf. c # t = kw @ suf) \<or> (\<exists>pre suf. t = pre @ kw @ suf)"
  proof
    assume "\<exists>pre suf. c # t = pre @ kw @ suf"
    then obtain pre suf where eq: "c # t = pre @ kw @ suf" by blast
    show "(\<exists>suf. c # t = kw @ suf) \<or> (\<exists>pre suf. t = pre @ kw @ suf)"
    proof (cases pre)
      case Nil
      then show ?thesis using eq by auto
    next
      case (Cons p pre')
      then have "t = pre' @ kw @ suf" using eq by simp
      then show ?thesis by blast
    qed
  next
    assume "(\<exists>suf. c # t = kw @ suf) \<or> (\<exists>pre suf. t = pre @ kw @ suf)"
    then show "\<exists>pre suf. c # t = pre @ kw @ suf"
    proof
      assume "\<exists>suf. c # t = kw @ suf"
      then obtain suf where "c # t = [] @ kw @ suf" by auto
      then show ?thesis by blast
    next
      assume "\<exists>pre suf. t = pre @ kw @ suf"
      then obtain pre suf where "c # t = (c # pre) @ kw @ suf" by auto
      then show ?thesis by blast
    qed
  qed
  then show ?case using Cons.IH by (simp add: starts_with_iff)
qed

lemma keyword_hits_card:
  assumes "distinct keywords"
  shows "keyword_hits keywords t = card {kw \<in> set keywords. occurs_in kw t}"
proof -
  have "{kw \<in> set keywords. occurs_in kw t} = {kw. occurs_in kw t} \<inter> set keywords" by auto
  then show ?thesis
    unfolding keyword_hits_def using distinct_length_filter [OF assms] by simp
qed

lemma keyword_lists_distinct:
  assumes "lang \<noteq> cp ''en''"
  shows "distinct (dict_get SPAM_KEYWORDS lang [] @ dict_get SPAM_KEYWORDS (cp ''en'') [])"
    and "distinct (dict_get POSITIVE_KEYWORDS lang [] @ dict_get POSITIVE_KEYWORDS (cp ''en'') [])"
    and "distinct (dict_get NEGATIVE_KEYWORDS lang [] @ dict_get NEGATIVE_KEYWORDS (cp ''en'') [])"
  using assms
  by (cases "lang = cp ''vi''";
      simp add: dict_get_def SPAM_KEYWORDS_def POSITIVE_KEYWORDS_def NEGATIVE_KEYWORDS_def cp_def)+

lemma category_patterns_distinct: "\<forall>(cat, keywords) \<in> set CATEGORY_PATTERNS. distinct keywords"
  by (simp add: CATEGORY_PATTERNS_def cp_def)

text \<open>
  Claim C5, as amended. For a language code other than "en", each of the three
  language-dependent scores is the number of keywords, of the language's list together
  with the English list, that occur in the lower-cased text: a keyword counts once however
  often it occurs. Each category count is the number of that category's keywords that
  occur. The English list is part of the union for every such language code, known or not.
\<close>

theorem keyword_score_counts_present_keywords:
  assumes "lang \<noteq> cp ''en''"
  shows "spam_score lower text lang =
       Inr (card {kw \<in> set (dict_get SPAM_KEYWORDS lang []) \<union>
                        set (dict_get SPAM_KEYWORDS (cp ''en'') []). occurs_in kw (lower text)}) \<and>
     pos_score lower text lang =
       Inr (card {kw \<in> set (dict_get POSITIVE_KEYWORDS lang []) \<union>
                        set (dict_get POSITIVE_KEYWORDS (cp ''en'') []). occurs_in kw (lower text)}) \<and>
     neg_score lower text lang =
       Inr (card {kw \<in> set (dict_get NEGATIVE_KEYWORDS lang []) \<union>
                        set (dict_get NEGATIVE_KEYWORDS (cp ''en'') []). occurs_in kw (lower text)}) \<and>
     category_scores (lower text) =
       map (\<lambda>(cat, keywords). (cat, card {kw \<in> set keywords. occurs_in kw (lower text)}))
         CATEGORY_PATTERNS"
proof -
  note d = keyword_lists_distinct [OF assms]
  have "spam_score lower text lang =
       Inr (card {kw \<in> set (dict_get SPAM_KEYWORDS lang []) \<union>
                        set (dict_get SPAM_KEYWORDS (cp ''en'') []). occurs_in kw (lower text)})"
    unfolding spam_score_eq keyword_hits_card [OF d(1)] by simp
  moreover have "pos_score lower text lang =
       Inr (card {kw \<in> set (dict_get POSITIVE_KEYWORDS lang []) \<union>
                        set (dict_get POSITIVE_KEYWORDS (cp ''en'') []). occurs_in kw (lower text)})"
    unfolding pos_score_eq keyword_hits_card [OF d(2)] by simp
  moreover have "neg_score lower text lang =
       Inr (card {kw \<in> set (dict_get NEGATIVE_KEYWORDS lang []) \<union>
                        set (dict_get NEGATIVE_KEYWORDS (cp ''en'') []). occurs_in kw (lower text)})"
    unfolding neg_score_eq keyword_hits_card [OF d(3)] by simp
  moreover have "category_scores (lower text) =
       map (\<lambda>(cat, keywords). (cat, card {kw \<in> set keywords. occurs_in kw (lower text)}))
         CATEGORY_PATTERNS"
    unfolding category_scores_def
    using category_patterns_distinct by (auto simp: keyword_hits_card)
  ultimately show ?thesis by blast
qed

theorem keyword_score_counts_present_keywords_witness:
  "cp ''vi'' \<noteq> cp ''en'' \<and>
   spam_score ascii_lower (cp ''winner winner'') (cp ''vi'') = Inr 1 \<and>
   card {kw \<in> set (dict_get SPAM_KEYWORDS (cp ''vi'') []) \<union>
               set (dict_get SPAM_KEYWORDS (cp ''en'') []).
         occurs_in kw (ascii_lower (cp ''winner winner''))} = 1"
proof -
  have ne: "cp ''vi'' \<noteq> cp ''en''" by (simp add: cp_def)
  have a: "spam_score ascii_lower (cp ''winner winner'') (cp ''vi'') = Inr 1"
    by (simp add: scorer_defs)
  from keyword_score_counts_present_keywords [OF ne, of ascii_lower "cp ''winner winner''"]
  have "spam_score ascii_lower (cp ''winner winner'') (cp ''vi'') =
       Inr (card {kw \<in> set (dict_get SPAM_KEYWORDS (cp ''vi'') []) \<union>
                        set (dict_get SPAM_KEYWORDS (cp ''en'') []).
                  occurs_in kw (ascii_lower (cp ''winner winner''))})"
    by blast
  then show ?thesis using ne a by simp
qed

text \<open>
  The claim as stated fails: with the keyword "winner" twice in the text, the score is 1
  and the number of occurrences is 2.
\<close>

theorem keyword_score_occurrences_counterexample:
  "spam_score ascii_lower (cp ''winner winner'') (cp ''vi'') = Inr 1 \<and>
   spec_occurrence_score SPAM_KEYWORDS (ascii_lower (cp ''winner winner'')) (cp ''vi'') = 2 \<and>
   spam_score ascii_lower (cp ''winner winner'') (cp ''vi'') \<noteq>
     Inr (spec_occurrence_score SPAM_KEYWORDS (ascii_lower (cp ''winner winner'')) (cp ''vi''))"
proof -
  have a: "spam_score ascii_lower (cp ''winner winner'') (cp ''vi'') = Inr 1"
    by (simp add: scorer_defs)
  have b: "spec_occurrence_score SPAM_KEYWORDS (ascii_lower (cp ''winner winner'')) (cp ''vi'') = 2"
    by (simp add: spec_occurrence_score_def scorer_defs)
  show ?thesis unfolding a b by simp
qed

text \<open>
  For the language code "en" itself the scanned list is the English list twice, so that
  one English keyword scores 2.
\<close>

lemma english_keyword_counted_twice: "spam_score ascii_lower (cp ''winner'') (cp ''en'') = Inr 2"
  by (simp add: scorer_defs)

subsection \<open>No failure, and the neutral defaults\<close>

lemma keyword_hits_zero:
  assumes "\<forall>kw \<in> set keywords. \<not> occurs_in kw t"
  shows "keyword_hits keywords t = 0"
  using assms by (simp add: keyword_hits_def)

lemma dict_get_subset: "set (dict_get d k []) \<subseteq> set (concat (map snd d))"
proof (cases "map_of d k")
  case None
  then show ?thesis by (simp add: dict_get_def)
next
  case (Some v)
  then have "v \<in> set (map snd d)" by (metis map_of_SomeD set_zip_rightD zip_map_fst_snd)
  then show ?thesis using Some by (auto simp: dict_get_def)
qed

lemma dict_lists_subset:
  assumes "set (concat (map snd d)) \<subseteq> set axis_keywords"
  shows "set (dict_get d k [] @ dict_get d k' []) \<subseteq> set axis_keywords"
  using assms dict_get_subset [of d k] dict_get_subset [of d k'] by auto

lemma language_keywords_subset:
  "set (dict_get SPAM_KEYWORDS lang [] @ dict_get SPAM_KEYWORDS (cp ''en'') []) \<subseteq> set axis_keywords"
  "set (dict_get POSITIVE_KEYWORDS lang [] @ dict_get POSITIVE_KEYWORDS (cp ''en'') [])
     \<subseteq> set axis_keywords"
  "set (dict_get NEGATIVE_KEYWORDS lang [] @ dict_get NEGATIVE_KEYWORDS (cp ''en'') [])
     \<subseteq> set axis_keywords"
proof -
  have s: "set (concat (map snd SPAM_KEYWORDS)) \<subseteq> set axis_keywords"
    and p: "set (concat (map snd POSITIVE_KEYWORDS)) \<subseteq> set axis_keywords"
    and n: "set (concat (map snd NEGATIVE_KEYWORDS)) \<subseteq> set axis_keywords"
    unfolding axis_keywords_def by auto
  show "set (dict_get SPAM_KEYWORDS lang [] @ dict_get SPAM_KEYWORDS (cp ''en'') [])
       \<subseteq> set axis_keywords"
    by (rule dict_lists_subset [OF s])
  show "set (dict_get POSITIVE_KEYWORDS lang [] @ dict_get POSITIVE_KEYWORDS (cp ''en'') [])
       \<subseteq> set axis_keywords"
    by (rule dict_lists_subset [OF p])
  show "set (dict_get NEGATIVE_KEYWORDS lang [] @ dict_get NEGATIVE_KEYWORDS (cp ''en'') [])
       \<subseteq> set axis_keywords"
    by (rule dict_lists_subset [OF n])
qed

lemma category_keywords_subset:
  assumes "(cat, keywords) \<in> set CATEGORY_PATTERNS"
  shows "set keywords \<subseteq> set axis_keywords"
  using assms unfolding axis_keywords_def by force

lemma keyword_hits_zero_subset:
  assumes "set keywords \<subseteq> set axis_keywords"
    and "\<forall>kw \<in> set axis_keywords. \<not> occurs_in kw t"
  shows "keyword_hits keywords t = 0"
  using assms by (intro keyword_hits_zero) blast

lemma classify_no_keyword:
  assumes none: "\<forall>kw \<in> set axis_keywords. \<not> occurs_in kw (lower text)"
  shows "classify lower text lang = Inr neutral_defaults"
proof -
  have s: "spam_score lower text lang = Inr 0"
    unfolding spam_score_eq
    using keyword_hits_zero_subset [OF language_keywords_subset(1) none] by simp
  have p: "pos_score lower text lang = Inr 0"
    unfolding pos_score_eq
    using keyword_hits_zero_subset [OF language_keywords_subset(2) none] by simp
  have n: "neg_score lower text lang = Inr 0"
    unfolding neg_score_eq
    using keyword_hits_zero_subset [OF language_keywords_subset(3) none] by simp
  have zero: "\<forall>kv \<in> set (category_scores (lower text)). snd kv = 0"
    unfolding category_scores_def
    using keyword_hits_zero_subset [OF category_keywords_subset none] by auto
  have c: "category_part (category_scores (lower text)) = Inr (''primary'', 0.6)"
    unfolding category_part_eq [OF category_scores_keys] using zero by simp
  show ?thesis
    unfolding classify_eq [OF c s p n]
    by (simp add: neutral_defaults_def spam_part_def sentiment_part_def)
qed

lemma no_empty_keyword: "[] \<notin> set axis_keywords"
  by (simp add: axis_keywords_def SPAM_KEYWORDS_def POSITIVE_KEYWORDS_def NEGATIVE_KEYWORDS_def
      CATEGORY_PATTERNS_def cp_def)

lemma classify_empty:
  assumes "lower [] = []"
  shows "classify lower [] lang = Inr neutral_defaults"
proof (rule classify_no_keyword)
  show "\<forall>kw \<in> set axis_keywords. \<not> occurs_in kw (lower [])"
    unfolding assms using no_empty_keyword by auto
qed

text \<open>
  Claim C9. \<open>classify\<close> returns a result for every text and language. When no keyword
  of any axis occurs in the lower-cased text the result has \<open>is_spam = False\<close>, category
  "primary" and sentiment "neutral"; so it is for the empty text, whose lower-casing is
  empty.
\<close>

theorem classify_never_fails:
  "(\<exists>r. classify lower text lang = Inr r) \<and>
   ((\<forall>kw \<in> set axis_keywords. \<not> occurs_in kw (lower text)) \<longrightarrow>
      (\<exists>r. classify lower text lang = Inr r \<and>
           is_spam r = False \<and> category r = ''primary'' \<and> sentiment r = ''neutral'')) \<and>
   (lower [] = [] \<longrightarrow>
      (\<exists>r. classify lower [] lang = Inr r \<and>
           is_spam r = False \<and> category r = ''primary'' \<and> sentiment r = ''neutral''))"
proof -
  have "\<exists>r. classify lower text lang = Inr r"
    using classify_total [of lower "text" lang] by blast
  moreover have "is_spam neutral_defaults = False \<and> category neutral_defaults = ''primary'' \<and>
      sentiment neutral_defaults = ''neutral''"
    by (simp add: neutral_defaults_def)
  ultimately show ?thesis
    using classify_no_keyword [of lower "text" lang] classify_empty [of lower lang] by metis
qed

theorem classify_never_fails_witness:
  "ascii_lower [] = [] \<and>
   \<not> (\<exists>kw \<in> set axis_keywords. occurs_in kw (ascii_lower (cp ''Hello World''))) \<and>
   (\<exists>r. classify ascii_lower [] (cp ''vi'') = Inr r \<and>
        is_spam r = False \<and> category r = ''primary'' \<and> sentiment r = ''neutral'') \<and>
   (\<exists>r. classify ascii_lower (cp ''Hello World'') (cp ''xx'') = Inr r \<and>
        is_spam r = False \<and> category r = ''primary'' \<and> sentiment r = ''neutral'')"
proof -
  have e: "ascii_lower [] = []" by (simp add: ascii_lower_def)
  have h: "\<forall>kw \<in> set axis_keywords. \<not> occurs_in kw (ascii_lower (cp ''Hello World''))"
    by (simp add: axis_keywords_def SPAM_KEYWORDS_def POSITIVE_KEYWORDS_def
        NEGATIVE_KEYWORDS_def CATEGORY_PATTERNS_def cp_def ascii_lower_def)
  show ?thesis
    using e h classify_never_fails [of ascii_lower "cp ''Hello World''" "cp ''xx''"]
      classify_never_fails [of ascii_lower "cp ''Hello World''" "cp ''vi''"]
    by blast
qed

section \<open>Properties of the endpoints\<close>

lemma run_classifier_fallback:
  assumes "\<not> use_phobert classifier"
  shows "run_classifier classifier lower request full_text =
     (classify lower full_text (language request), Fallback_call full_text (language request))"
  using assms by (cases classifier) (simp_all add: run_classifier_def use_phobert_def)

lemma batch_loop_eq:
  "batch_loop classifier lower emails (items, calls) =
     (items @ map (\<lambda>email. fst (batch_step classifier lower email)) emails,
      calls @ map (\<lambda>email. snd (batch_step classifier lower email)) emails)"
proof (induction emails arbitrary: items calls)
  case Nil
  show ?case by simp
next
  case (Cons email emails)
  show ?case by (simp add: Cons.IH split: prod.splits)
qed

lemma batch_classify_eq:
  assumes "length emails \<le> 100"
  shows "batch_classify classifier lower emails =
     (Inr \<lparr>results = map (\<lambda>email. fst (batch_step classifier lower email)) emails,
           total = length emails\<rparr>,
      map (\<lambda>email. snd (batch_step classifier lower email)) emails)"
  using assms by (simp add: batch_classify_def batch_loop_eq)

lemma batch_step_item:
  "fst (batch_step classifier lower email) =
     (case fst (run_classifier classifier lower email (full_text_of email)) of
        Inl e \<Rightarrow> Item_error (str_of e)
      | Inr result \<Rightarrow> Item_result result)"
  by (simp add: batch_step_def split: prod.splits sum.splits)

lemma batch_step_call:
  "snd (batch_step classifier lower email) =
     snd (run_classifier classifier lower email (full_text_of email))"
  by (simp add: batch_step_def split: prod.splits sum.splits)

subsection \<open>Empty input\<close>

lemma classify_email_empty:
  assumes "full_text_of request = []"
  shows "classify_email classifier lower request =
     (Inl (HTTPException 400 (cp ''Email content cannot be empty'')), [])"
  using assms by (simp add: classify_email_def)

lemma classify_email_calls:
  assumes "full_text_of request \<noteq> []"
  shows "snd (classify_email classifier lower request) =
     [snd (run_classifier classifier lower request (full_text_of request))]"
  using assms
  by (simp add: classify_email_def Let_def split: prod.splits sum.splits py_exception.splits)

lemma run_classifier_raises_http:
  "raises_http (fst (run_classifier classifier lower request full_text)) =
     backend_raises_http classifier request"
proof (cases "use_phobert classifier")
  case True
  then show ?thesis
    by (cases classifier)
      (simp_all add: run_classifier_def use_phobert_def backend_raises_http_def)
next
  case False
  obtain r where "classify lower full_text (language request) = Inr r"
    using classify_total [of lower full_text "language request"] by blast
  then have "\<not> raises_http (fst (run_classifier classifier lower request full_text))"
    unfolding run_classifier_fallback [OF False] by (simp add: raises_http_def)
  moreover have "\<not> backend_raises_http classifier request"
    using False
    by (cases classifier) (simp_all add: use_phobert_def backend_raises_http_def)
  ultimately show ?thesis by simp
qed

lemma classify_email_no_http:
  assumes "full_text_of request \<noteq> []"
    and "\<not> backend_raises_http classifier request"
  shows "fst (classify_email classifier lower request) \<noteq>
     Inl (HTTPException 400 (cp ''Email content cannot be empty''))"
proof -
  obtain outcome call where
    run: "run_classifier classifier lower request (full_text_of request) = (outcome, call)"
    by (cases "run_classifier classifier lower request (full_text_of request)")
  have "\<not> raises_http (fst (run_classifier classifier lower request (full_text_of request)))"
    unfolding run_classifier_raises_http by (rule assms(2))
  then have no_http: "\<not> raises_http outcome" unfolding run by simp
  show ?thesis
  proof (cases outcome)
    case (Inr result)
    then show ?thesis using assms(1) run by (simp add: classify_email_def)
  next
    case (Inl e)
    then obtain cls msg where "e = PyException cls msg"
      using no_http by (cases e) (simp_all add: raises_http_def)
    then show ?thesis using assms(1) run Inl by (simp add: classify_email_def)
  qed
qed

text \<open>
  The handler \<open>except HTTPException: raise\<close> at work: a loaded classifier that raises the
  error of the empty-input check makes \<open>classify_email\<close> fail with it on a text that is
  not empty.
\<close>

lemma classify_email_passes_http_on:
  "classify_email (Some rejecting_phobert) lower
     \<lparr>subject = cp ''Hi'', body = cp ''there'', language = cp ''vi''\<rparr> =
     (Inl (HTTPException 400 (cp ''Email content cannot be empty'')),
      [PhoBERT_call (cp ''Hi'') (cp ''there'')])"
  by (simp add: classify_email_def full_text_of_def strip_def is_space_def cp_def
      run_classifier_def rejecting_phobert_def)

text \<open>
  Claim C6. When the stripped concatenation of subject, a space and body is empty,
  \<open>classify_email\<close> fails with the error for empty input (status 400, "Email content
  cannot be empty") and has called no classifier. When it is not empty, exactly one
  classifier is called. Provided the loaded classifier raises no \<open>HTTPException\<close> of its
  own for the request, as the \<open>PhoBERTClassifier\<close> of the source does not, the request
  fails with that error exactly when the stripped text is empty; the provision always
  holds on the rule-based path, taken when no models are loaded.
\<close>

theorem classify_email_empty_input:
  "(strip (subject request @ cp '' '' @ body request) = [] \<longrightarrow>
      classify_email classifier lower request =
        (Inl (HTTPException 400 (cp ''Email content cannot be empty'')), [])) \<and>
   (strip (subject request @ cp '' '' @ body request) \<noteq> [] \<longrightarrow>
      length (snd (classify_email classifier lower request)) = 1) \<and>
   (\<not> backend_raises_http classifier request \<longrightarrow>
      (fst (classify_email classifier lower request) =
         Inl (HTTPException 400 (cp ''Email content cannot be empty''))) =
      (strip (subject request @ cp '' '' @ body request) = [])) \<and>
   (\<not> use_phobert classifier \<longrightarrow> \<not> backend_raises_http classifier request)"
proof -
  have text_eq: "strip (subject request @ cp '' '' @ body request) = full_text_of request"
    by (simp add: full_text_of_def)
  have empty: "full_text_of request = [] \<longrightarrow>
      classify_email classifier lower request =
        (Inl (HTTPException 400 (cp ''Email content cannot be empty'')), [])"
    using classify_email_empty by blast
  have calls: "full_text_of request \<noteq> [] \<longrightarrow>
      length (snd (classify_email classifier lower request)) = 1"
    using classify_email_calls [of request classifier lower] by simp
  have iff: "\<not> backend_raises_http classifier request \<longrightarrow>
      (fst (classify_email classifier lower request) =
         Inl (HTTPException 400 (cp ''Email content cannot be empty''))) =
      (full_text_of request = [])"
    using classify_email_empty [of request classifier lower]
      classify_email_no_http [of request classifier lower] by auto
  have fallback: "\<not> use_phobert classifier \<longrightarrow> \<not> backend_raises_http classifier request"
    by (cases classifier) (simp_all add: use_phobert_def backend_raises_http_def)
  show ?thesis
    unfolding text_eq using empty calls iff fallback by blast
qed

theorem classify_email_empty_input_witness:
  "strip (cp ''  '' @ cp '' '' @ cp []) = [] \<and>
   classify_email None ascii_lower \<lparr>subject = cp ''  '', body = cp [], language = cp ''vi''\<rparr> =
     (Inl (HTTPException 400 (cp ''Email content cannot be empty'')), []) \<and>
   strip (cp ''bad'' @ cp '' '' @ cp ''mail'') \<noteq> [] \<and>
   \<not> backend_raises_http (Some failing_phobert)
       \<lparr>subject = cp ''bad'', body = cp ''mail'', language = cp ''vi''\<rparr> \<and>
   fst (classify_email (Some failing_phobert) ascii_lower
          \<lparr>subject = cp ''bad'', body = cp ''mail'', language = cp ''vi''\<rparr>)
     \<noteq> Inl (HTTPException 400 (cp ''Email content cannot be empty'')) \<and>
   length (snd (classify_email (Some failing_phobert) ascii_lower
                  \<lparr>subject = cp ''bad'', body = cp ''mail'', language = cp ''vi''\<rparr>)) = 1 \<and>
   \<not> use_phobert None \<and>
   strip (cp ''Hi'' @ cp '' '' @ cp []) \<noteq> [] \<and>
   fst (classify_email None ascii_lower \<lparr>subject = cp ''Hi'', body = cp [], language = cp ''vi''\<rparr>)
     \<noteq> Inl (HTTPException 400 (cp ''Email content cannot be empty''))"
proof -
  have e: "strip (cp ''  '' @ cp '' '' @ cp []) = []"
    by (simp add: strip_def is_space_def cp_def)
  have n: "strip (cp ''bad'' @ cp '' '' @ cp ''mail'') \<noteq> []"
    by (simp add: strip_def is_space_def cp_def)
  have m: "strip (cp ''Hi'' @ cp '' '' @ cp []) \<noteq> []"
    by (simp add: strip_def is_space_def cp_def)
  have h: "\<not> backend_raises_http (Some failing_phobert)
       \<lparr>subject = cp ''bad'', body = cp ''mail'', language = cp ''vi''\<rparr>"
    by (simp add: backend_raises_http_def failing_phobert_def raises_http_def)
  have f: "\<not> use_phobert None" by (simp add: use_phobert_def)
  note a = classify_email_empty_input [of
      "\<lparr>subject = cp ''  '', body = cp [], language = cp ''vi''\<rparr>" None ascii_lower]
  note b = classify_email_empty_input [of
      "\<lparr>subject = cp ''bad'', body = cp ''mail'', language = cp ''vi''\<rparr>"
      "Some failing_phobert" ascii_lower]
  note c = classify_email_empty_input [of
      "\<lparr>subject = cp ''Hi'', body = cp [], language = cp ''vi''\<rparr>" None ascii_lower]
  show ?thesis using a b c e n m h f by simp
qed

subsection \<open>The size cap of a batch\<close>

text \<open>
  Claim C7. A batch of more than 100 emails fails as a whole with the error for an
  oversized batch (status 400, "Maximum 100 emails per batch"), and no classifier has
  been called for any item; a batch of at most 100 emails returns a response.
\<close>

theorem batch_classify_size_cap:
  "(100 < length emails \<longrightarrow>
      batch_classify classifier lower emails =
        (Inl (HTTPException 400 (cp ''Maximum 100 emails per batch'')), [])) \<and>
   (length emails \<le> 100 \<longrightarrow>
      (\<exists>response calls. batch_classify classifier lower emails = (Inr response, calls)))"
proof (cases "100 < length emails")
  case True
  then show ?thesis by (simp add: batch_classify_def)
next
  case False
  then have "length emails \<le> 100" by simp
  from batch_classify_eq [OF this] show ?thesis using False by simp
qed

theorem batch_classify_size_cap_witness:
  "100 < length (replicate 101 \<lparr>subject = cp ''a'', body = cp ''b'', language = cp ''vi''\<rparr>) \<and>
   batch_classify None ascii_lower
     (replicate 101 \<lparr>subject = cp ''a'', body = cp ''b'', language = cp ''vi''\<rparr>) =
     (Inl (HTTPException 400 (cp ''Maximum 100 emails per batch'')), []) \<and>
   length (replicate 100 \<lparr>subject = cp ''a'', body = cp ''b'', language = cp ''vi''\<rparr>) \<le> 100 \<and>
   (\<exists>response calls.
      batch_classify None ascii_lower
        (replicate 100 \<lparr>subject = cp ''a'', body = cp ''b'', language = cp ''vi''\<rparr>) =
        (Inr response, calls))"
  using batch_classify_size_cap [of
      "replicate 101 \<lparr>subject = cp ''a'', body = cp ''b'', language = cp ''vi''\<rparr>" None ascii_lower]
    batch_classify_size_cap [of
      "replicate 100 \<lparr>subject = cp ''a'', body = cp ''b'', language = cp ''vi''\<rparr>" None ascii_lower]
  by simp

subsection \<open>Isolation of the items of a batch\<close>

text \<open>
  Claim C8. For a batch of at most 100 emails the response holds one item per email, in
  the order of the input, and \<open>total\<close> is the number of emails. An item is decided by
  its own email alone: when the classifier raises, the item is the error message with
  \<open>success = False\<close>; when it returns, the item is the result with \<open>success = True\<close>.
  One classifier call is made per email.
\<close>

theorem batch_classify_isolation:
  assumes "length emails \<le> 100"
  shows "\<exists>response calls.
     batch_classify classifier lower emails = (Inr response, calls) \<and>
     length (results response) = length emails \<and>
     total response = length emails \<and>
     length calls = length emails \<and>
     (\<forall>i < length emails.
        results response ! i =
          (case fst (run_classifier classifier lower (emails ! i) (full_text_of (emails ! i))) of
             Inl e \<Rightarrow> Item_error (str_of e)
           | Inr result \<Rightarrow> Item_result result) \<and>
        success (results response ! i) =
          (\<not> isl (fst (run_classifier classifier lower (emails ! i)
                           (full_text_of (emails ! i))))))"
proof -
  have "success (fst (batch_step classifier lower email)) =
     (\<not> isl (fst (run_classifier classifier lower email (full_text_of email))))" for email
    by (simp add: batch_step_item split: sum.splits)
  then show ?thesis
    unfolding batch_classify_eq [OF assms] by (simp add: batch_step_item)
qed

theorem batch_classify_isolation_witness:
  "length sample_batch \<le> 100 \<and>
   (\<exists>response calls.
      batch_classify (Some failing_phobert) ascii_lower sample_batch = (Inr response, calls) \<and>
      total response = 3 \<and>
      results response =
        [Item_result neutral_defaults, Item_error (cp ''boom''), Item_result neutral_defaults] \<and>
      map success (results response) = [True, False, True])"
proof -
  have len: "length sample_batch \<le> 100" and three: "length sample_batch = 3"
    by (simp_all add: sample_batch_def)
  have run:
    "fst (run_classifier (Some failing_phobert) ascii_lower (sample_batch ! 0)
            (full_text_of (sample_batch ! 0))) = Inr neutral_defaults"
    "fst (run_classifier (Some failing_phobert) ascii_lower (sample_batch ! 1)
            (full_text_of (sample_batch ! 1))) = Inl (PyException ''RuntimeError'' (cp ''boom''))"
    "fst (run_classifier (Some failing_phobert) ascii_lower (sample_batch ! 2)
            (full_text_of (sample_batch ! 2))) = Inr neutral_defaults"
    by (simp_all add: run_classifier_def failing_phobert_def sample_batch_def cp_def)
  from batch_classify_isolation [OF len, of "Some failing_phobert" ascii_lower]
  obtain response calls where
    b: "batch_classify (Some failing_phobert) ascii_lower sample_batch = (Inr response, calls)" and
    l: "length (results response) = 3" and t: "total response = 3" and
    items: "\<forall>i < 3. results response ! i =
          (case fst (run_classifier (Some failing_phobert) ascii_lower (sample_batch ! i)
                       (full_text_of (sample_batch ! i))) of
             Inl e \<Rightarrow> Item_error (str_of e)
           | Inr result \<Rightarrow> Item_result result)"
    unfolding three by blast
  have "results response ! 0 = Item_result neutral_defaults"
    "results response ! 1 = Item_error (cp ''boom'')"
    "results response ! 2 = Item_result neutral_defaults"
    using items run by simp_all
  then have "results response =
      [Item_result neutral_defaults, Item_error (cp ''boom''), Item_result neutral_defaults]"
    using l by (simp add: list_eq_iff_nth_eq less_Suc_eq eval_nat_numeral)
  then show ?thesis using len b t by simp
qed

subsection \<open>An empty item of a batch\<close>

text \<open>
  Claim C10. In a batch, an email whose stripped text is empty is not rejected: with no
  loaded models (and a lower-casing that maps the empty text to itself) the rule-based
  classifier is called on the empty text and the item is the neutral-default result with
  \<open>success = True\<close>, whereas \<open>classify_email\<close> rejects the same email before any call.
\<close>

theorem batch_classify_accepts_empty_item:
  assumes "lower [] = []" and "\<not> use_phobert classifier" and "length emails \<le> 100"
    and "i < length emails" and "full_text_of (emails ! i) = []"
  shows "\<exists>response calls.
     batch_classify classifier lower emails = (Inr response, calls) \<and>
     results response ! i = Item_result neutral_defaults \<and>
     success (results response ! i) \<and>
     calls ! i = Fallback_call [] (language (emails ! i)) \<and>
     classify_email classifier lower (emails ! i) =
       (Inl (HTTPException 400 (cp ''Email content cannot be empty'')), [])"
proof -
  have run: "run_classifier classifier lower (emails ! i) [] =
      (Inr neutral_defaults, Fallback_call [] (language (emails ! i)))"
    unfolding run_classifier_fallback [OF assms(2)] classify_empty [of lower, OF assms(1)] by simp
  have item: "fst (batch_step classifier lower (emails ! i)) = Item_result neutral_defaults"
    unfolding batch_step_item assms(5) run by simp
  have call: "snd (batch_step classifier lower (emails ! i)) =
      Fallback_call [] (language (emails ! i))"
    unfolding batch_step_call assms(5) run by simp
  have single: "classify_email classifier lower (emails ! i) =
       (Inl (HTTPException 400 (cp ''Email content cannot be empty'')), [])"
    using assms(5) by (simp add: classify_email_def)
  show ?thesis
    unfolding batch_classify_eq [OF assms(3)] using assms(4) item call single by simp
qed

theorem batch_classify_accepts_empty_item_witness:
  "ascii_lower [] = [] \<and> \<not> use_phobert None \<and>
   length [\<lparr>subject = cp '''', body = cp ''  '', language = cp ''vi''\<rparr>] \<le> 100 \<and>
   full_text_of \<lparr>subject = cp '''', body = cp ''  '', language = cp ''vi''\<rparr> = [] \<and>
   (\<exists>response calls.
      batch_classify None ascii_lower
        [\<lparr>subject = cp '''', body = cp ''  '', language = cp ''vi''\<rparr>] = (Inr response, calls) \<and>
      results response = [Item_result neutral_defaults] \<and>
      calls = [Fallback_call [] (cp ''vi'')]) \<and>
   classify_email None ascii_lower \<lparr>subject = cp '''', body = cp ''  '', language = cp ''vi''\<rparr> =
     (Inl (HTTPException 400 (cp ''Email content cannot be empty'')), [])"
proof -
  define email where "email = \<lparr>subject = cp '''', body = cp ''  '', language = cp ''vi''\<rparr>"
  have a: "ascii_lower [] = []" by (simp add: ascii_lower_def)
  have b: "\<not> use_phobert None" by (simp add: use_phobert_def)
  have c: "length [email] \<le> 100" "(0::nat) < length [email]" by simp_all
  have d: "full_text_of ([email] ! 0) = []"
    by (simp add: email_def full_text_of_def strip_def is_space_def cp_def)
  from batch_classify_accepts_empty_item
    [where lower = ascii_lower and classifier = None and emails = "[email]" and i = 0,
      OF a b c d]
  obtain response calls where
    r: "batch_classify None ascii_lower [email] = (Inr response, calls)"
    "results response ! 0 = Item_result neutral_defaults"
    "calls ! 0 = Fallback_call [] (language email)"
    "classify_email None ascii_lower email =
       (Inl (HTTPException 400 (cp ''Email content cannot be empty'')), [])"
    by auto
  have "length (results response) = 1" "length calls = 1"
    using r(1) batch_classify_eq [OF c(1), of None ascii_lower] by auto
  then have "results response = [Item_result neutral_defaults]"
    "calls = [Fallback_call [] (cp ''vi'')]"
    using r(2,3) by (simp_all add: list_eq_iff_nth_eq email_def)
  then show ?thesis using a b d r(1,4) unfolding email_def by simp
qed

section \<open>Properties of the model-backed classifier\<close>

lemma table_get_categories:
  "table_get CATEGORIES k ''primary'' \<in>
     {''primary'', ''important'', ''social'', ''promotions'', ''updates'', ''spam''}"
  by (simp add: table_get_def CATEGORIES_def)

lemma table_get_sentiments:
  "table_get SENTIMENTS k ''neutral'' \<in> {''negative'', ''neutral'', ''positive''}"
  by (simp add: table_get_def SENTIMENTS_def)

lemma analyze_sentiment_label:
  "st_sentiment (analyze_sentiment self text) \<in> {''negative'', ''neutral'', ''positive''}"
  using table_get_sentiments
  by (simp add: analyze_sentiment_def Let_def split: option.splits sum.splits prod.splits)

lemma spam_step_labels:
  "res_category (fst (spam_step self text st)) = res_category (fst st) \<and>
   res_sentiment (fst (spam_step self text st)) = res_sentiment (fst st)"
  by (simp add: spam_step_def Let_def split: prod.splits option.splits)

lemma sentiment_step_labels:
  "res_category (fst (sentiment_step self text st)) = res_category (fst st) \<and>
   res_sentiment (fst (sentiment_step self text st)) \<in>
     {res_sentiment (fst st), ''negative'', ''neutral'', ''positive''}"
  using analyze_sentiment_label [of self "text"]
  by (simp add: sentiment_step_def Let_def split: prod.splits option.splits)

lemma category_step_labels:
  "(case category_step self inputs st of
      Inl result \<Rightarrow> result = fst st
    | Inr (result, confidences) \<Rightarrow>
        res_sentiment result = res_sentiment (fst st) \<and>
        res_category result \<in>
          {res_category (fst st), ''primary'', ''important'', ''social'', ''promotions'',
           ''updates'', ''spam''})"
  using table_get_categories
  by (simp add: category_step_def split: prod.splits option.splits sum.splits)

lemma model_classify_labels:
  "res_category (model_classify self text) \<in>
     {''primary'', ''important'', ''social'', ''promotions'', ''updates'', ''spam''} \<and>
   res_sentiment (model_classify self text) \<in> {''negative'', ''neutral'', ''positive''}"
proof -
  define result :: model_result where "result =
     \<lparr>res_category = ''primary'', res_is_spam = False, res_spam_score = 0,
      res_sentiment = ''neutral'', res_sentiment_score = 0, res_confidence = 0\<rparr>"
  define st where "st = sentiment_step self text (spam_step self text (result, []))"
  have st: "res_category (fst st) = ''primary''"
    "res_sentiment (fst st) \<in> {''negative'', ''neutral'', ''positive''}"
    using sentiment_step_labels [of self "text" "spam_step self text (result, [])"]
      spam_step_labels [of self "text" "(result, [])"]
    unfolding st_def by (auto simp: result_def)
  have res: "res_category result = ''primary''" "res_sentiment result = ''neutral''"
    by (simp_all add: result_def)
  show ?thesis
  proof (cases "is_loaded self")
    case False
    then show ?thesis by (simp add: model_classify_def)
  next
    case True
    show ?thesis
    proof (cases "preprocess self text")
      case (Inl e)
      then show ?thesis using True by (simp add: model_classify_def)
    next
      case (Inr inputs)
      show ?thesis
      proof (cases "category_step self inputs st")
        case (Inl interrupted)
        then have "model_classify self text = fst st"
          using True Inr category_step_labels [where self = self and inputs = inputs and st = st]
          by (simp add: model_classify_def st_def result_def)
        then show ?thesis using st by auto
      next
        case (Inr b)
        obtain result' confidences where b: "b = (result', confidences)" by (cases b)
        have lab: "res_sentiment result' = res_sentiment (fst st)"
          "res_category result' \<in> {''primary'', ''important'', ''social'', ''promotions'',
             ''updates'', ''spam''}"
          using category_step_labels [where self = self and inputs = inputs and st = st] Inr b st(1) by auto
        have "res_category (model_classify self text) = res_category result' \<and>
              res_sentiment (model_classify self text) = res_sentiment result'"
          using True \<open>preprocess self text = Inr inputs\<close> Inr b
          by (simp add: model_classify_def st_def result_def)
        then show ?thesis using lab st(2) by auto
      qed
    qed
  qed
qed

text \<open>
  Claim C1, at the input where it fails. The sentiment of \<open>PhoBERTClassifier.classify\<close>
  is always one of the three labels and the category is always a value of \<open>CATEGORIES\<close>
  (lemma \<open>model_classify_labels\<close>); but \<open>CATEGORIES\<close> has the sixth entry
  \<open>5: "spam"\<close>, so a category model that predicts class 5 makes the category "spam",
  which is none of the five category labels, while \<open>is_spam\<close> stays False.
\<close>

theorem model_classify_returns_spam_category:
  "res_category (model_classify six_class_classifier (cp ''hello'')) = ''spam'' \<and>
   res_is_spam (model_classify six_class_classifier (cp ''hello'')) = False \<and>
   res_category (model_classify six_class_classifier (cp ''hello'')) \<notin>
     {''important'', ''social'', ''promotions'', ''updates'', ''primary''}"
  by (simp add: model_classify_def six_class_classifier_def preprocess_def spam_step_def
      sentiment_step_def category_step_def table_get_def CATEGORIES_def)

end
